theory Spec2Isabelle
  imports Main "HOL-Library.FSet" "HOL-Library.Finite_Map"
begin

section \<open>The universe of types\<close>

text \<open>
  The library \<^verbatim>\<open>src/lib/types/objects.ts\<close> consists of TypeScript type aliases: each
  alias is a function from types to types that the type checker evaluates. The embedding
  gives every alias a HOL function of the same name over a universe of closed, finite
  types, under \<^verbatim>\<open>strictNullChecks\<close> (the mode in which \<^verbatim>\<open>CanBeUndef\<close> distinguishes
  anything at all).

  \<^item> A property key is a key type, as \<^verbatim>\<open>keyof\<close> yields it: a string literal, a numeric
    literal or a unique symbol. A property declared under a numeric name (\<^verbatim>\<open>{ 1: T }\<close>) has
    the numeric literal as its key, one declared under a quoted name (\<^verbatim>\<open>{ '1': T }\<close>) the
    string literal. The two literals are different key types, and \<^verbatim>\<open>Exclude\<close> keeps them
    apart, but they name one and the same property: \<open>twin\<close> gives the key of the other kind.
  \<^item> A union of keys (the type of a parameter \<^verbatim>\<open>TKeys extends keyof T\<close>) is a finite set of
    keys; \<^verbatim>\<open>never\<close> is the empty set. Key types with infinitely many members
    (\<^verbatim>\<open>string\<close>, \<^verbatim>\<open>number\<close>), which would produce index signatures, are outside the universe.
  \<^item> A value type is \<^verbatim>\<open>any\<close>, \<^verbatim>\<open>unknown\<close>, or a union of atoms, kept as a finite set so
    that the union is idempotent, commutative and associative as it is for the checker;
    \<^verbatim>\<open>never\<close> is the empty union. An atom is a primitive type, an object type, or an
    intersection of two atoms that the checker does not reduce (\<^verbatim>\<open>string & { a: number }\<close>).
  \<^item> An object type is a finite map from its keys to properties, so that two object types
    with the same properties are equal whatever the order of declaration. A property
    carries its type and the two modifiers \<^verbatim>\<open>?\<close> and \<^verbatim>\<open>readonly\<close>. In a record type, what
    an object literal type declares, every property has one key (\<open>record_type\<close>); in an
    intersection of object types a property can answer to both of its keys, and the map
    then binds both keys to it.

  Literal types as value types, functions, arrays, tuples and index signatures are not
  part of the universe.
\<close>

datatype key = StrKey string | NumKey string | SymKey string

text \<open>
  \<open>NumKey s\<close> is the numeric literal whose property name is the text \<open>s\<close>, so \<open>NumKey ''1''\<close>
  is the key of \<^verbatim>\<open>{ 1: T }\<close> and \<open>StrKey ''1''\<close> the key of \<^verbatim>\<open>{ '1': T }\<close>.
\<close>

fun twin :: "key \<Rightarrow> key option" where
  "twin (StrKey s) = Some (NumKey s)"
| "twin (NumKey s) = Some (StrKey s)"
| "twin (SymKey s) = None"

text \<open>Whether the set \<open>K\<close> holds the key of the other kind for the property of \<open>k\<close>.\<close>

definition twin_in :: "key fset \<Rightarrow> key \<Rightarrow> bool" where
  "twin_in K k = (case twin k of None \<Rightarrow> False | Some k' \<Rightarrow> k' |\<in>| K)"

datatype prim = PString | PNumber | PBoolean | PUndefined | PNull

datatype ty = TAny | TUnknown | TUnion "atom fset"
  and atom = APrim prim | AObj "(key, property) fmap" | AInter atom atom
  and property = Prop (ptype: ty) (optional: bool) (readonly: bool)

type_synonym obj = "(key, property) fmap"

abbreviation TNever :: ty where "TNever \<equiv> TUnion {||}"
abbreviation TString :: ty where "TString \<equiv> TUnion {|APrim PString|}"
abbreviation TNumber :: ty where "TNumber \<equiv> TUnion {|APrim PNumber|}"
abbreviation TBoolean :: ty where "TBoolean \<equiv> TUnion {|APrim PBoolean|}"
abbreviation TUndefined :: ty where "TUndefined \<equiv> TUnion {|APrim PUndefined|}"
abbreviation TNull :: ty where "TNull \<equiv> TUnion {|APrim PNull|}"
abbreviation TObject :: "obj \<Rightarrow> ty" where "TObject m \<equiv> TUnion {|AObj m|}"

section \<open>The checker's operators used by the library\<close>

text \<open>
  \<^verbatim>\<open>A | B | ...\<close>: a union that contains \<^verbatim>\<open>any\<close> is \<^verbatim>\<open>any\<close>, otherwise one that contains
  \<^verbatim>\<open>unknown\<close> is \<^verbatim>\<open>unknown\<close>, otherwise it is the union of the members.
\<close>

fun members :: "ty \<Rightarrow> atom fset" where
  "members (TUnion as) = as"
| "members TAny = {||}"
| "members TUnknown = {||}"

definition UnionOf :: "ty fset \<Rightarrow> ty" where
  "UnionOf S =
     (if TAny |\<in>| S then TAny
      else if TUnknown |\<in>| S then TUnknown
      else TUnion (ffUnion (members |`| S)))"

text \<open>
  The type of a property as the checker reads it: an optional property \<^verbatim>\<open>k?: T\<close> has the
  type \<^verbatim>\<open>T | undefined\<close>.
\<close>

definition OrUndefined :: "ty \<Rightarrow> ty" where
  "OrUndefined t = UnionOf {|t, TUndefined|}"

definition read_type :: "property \<Rightarrow> ty" where
  "read_type p = (if optional p then OrUndefined (ptype p) else ptype p)"

text \<open>\<^verbatim>\<open>keyof T\<close>, for an object type: the union of its keys, optional ones included.\<close>

definition keyof :: "obj \<Rightarrow> key fset" where
  "keyof T = fmdom T"

text \<open>
  \<^verbatim>\<open>T[K]\<close>, for a union of keys \<^verbatim>\<open>K\<close>: the union of the types read at the keys. The
  checker rejects a key that is not in \<^verbatim>\<open>keyof T\<close>; every use below is guarded by the
  alias's constraint \<^verbatim>\<open>K extends keyof T\<close>.
\<close>

definition IndexedAccess :: "obj \<Rightarrow> key fset \<Rightarrow> ty" where
  "IndexedAccess T K = UnionOf (read_type |`| fmimage T K)"

text \<open>\<^verbatim>\<open>type Exclude<T, U> = T extends U ? never : T\<close>, on unions of keys.\<close>

definition Exclude :: "key fset \<Rightarrow> key fset \<Rightarrow> key fset" where
  "Exclude T U = T |-| U"

text \<open>
  \<^verbatim>\<open>type Pick<T, K extends keyof T> = { [P in K]: T[P] }\<close>. The mapped type is homomorphic
  in \<^verbatim>\<open>T\<close>: each selected property keeps its type and both of its modifiers.
\<close>

definition Pick :: "obj \<Rightarrow> key fset \<Rightarrow> obj" where
  "Pick T K = fmrestrict_fset K T"

text \<open>
  \<^verbatim>\<open>type Record<K extends keyof any, T> = { [P in K]: T }\<close>. The mapped type is not
  homomorphic (it ranges over a plain union of keys), so every property it declares is
  required and mutable.
\<close>

definition Record :: "key fset \<Rightarrow> ty \<Rightarrow> obj" where
  "Record K T = Abs_fmap (\<lambda>k. if k |\<in>| K then Some (Prop T False False) else None)"

text \<open>The same map over a set of keys, through which \<open>Record\<close> is computed.\<close>

definition record_on :: "key set \<Rightarrow> ty \<Rightarrow> obj" where
  "record_on S T = Abs_fmap (\<lambda>k. if k \<in> S then Some (Prop T False False) else None)"

text \<open>
  \<^verbatim>\<open>type Partial<T> = { [P in keyof T]?: T[P] }\<close>: homomorphic, adds \<^verbatim>\<open>?\<close> to every
  property, keeps \<^verbatim>\<open>readonly\<close>. The checker includes \<^verbatim>\<open>undefined\<close> in the type of a
  property it makes optional.
\<close>

definition Partial :: "obj \<Rightarrow> obj" where
  "Partial T = fmmap (\<lambda>p. Prop (OrUndefined (read_type p)) True (readonly p)) T"

text \<open>
  \<^verbatim>\<open>A & B\<close> on value types. Identical types intersect to themselves, \<^verbatim>\<open>never\<close> absorbs,
  then \<^verbatim>\<open>any\<close> absorbs, \<^verbatim>\<open>unknown\<close> is neutral, and an intersection of unions is the union
  of the intersections of their members. Two different primitive types have no value in
  common (\<^verbatim>\<open>string & number\<close> is \<^verbatim>\<open>never\<close>); any other pair of different atoms stays an
  unreduced intersection.
\<close>

definition IntersectAtoms :: "atom \<Rightarrow> atom \<Rightarrow> atom fset" where
  "IntersectAtoms a b =
     (if a = b then {|a|}
      else case (a, b) of
             (APrim p, APrim q) \<Rightarrow> {||}
           | _ \<Rightarrow> {|AInter a b|})"

fun IntersectTypes :: "ty \<Rightarrow> ty \<Rightarrow> ty" where
  "IntersectTypes (TUnion as) (TUnion bs) =
     (if as = bs then TUnion as
      else TUnion (ffUnion ((\<lambda>a. ffUnion ((\<lambda>b. IntersectAtoms a b) |`| bs)) |`| as)))"
| "IntersectTypes (TUnion as) TAny = (if as = {||} then TNever else TAny)"
| "IntersectTypes TAny (TUnion bs) = (if bs = {||} then TNever else TAny)"
| "IntersectTypes TAny TAny = TAny"
| "IntersectTypes TAny TUnknown = TAny"
| "IntersectTypes TUnknown TAny = TAny"
| "IntersectTypes TUnknown b = b"
| "IntersectTypes a TUnknown = a"

text \<open>
  \<^verbatim>\<open>A & B\<close> on object types. The intersection has the keys of both operands. A property
  that one operand declares keeps its declaration. A property that both declare, under
  the same key or under the numeric key in one and the string key in the other, has
  the intersection of the two types read, is optional only if it is optional in both and
  readonly only if it is readonly in both. \<open>declared T k\<close> is the declaration in \<open>T\<close> of
  the property that \<open>k\<close> names, under \<open>k\<close> itself or under the key of the other kind.
\<close>

definition IntersectProps :: "property \<Rightarrow> property \<Rightarrow> property" where
  "IntersectProps p q =
     Prop (IntersectTypes (read_type p) (read_type q))
          (optional p \<and> optional q) (readonly p \<and> readonly q)"

definition declared :: "obj \<Rightarrow> key \<Rightarrow> property option" where
  "declared T k =
     (case fmlookup T k of
        Some p \<Rightarrow> Some p
      | None \<Rightarrow> (case twin k of None \<Rightarrow> None | Some k' \<Rightarrow> fmlookup T k'))"

definition Intersection :: "obj \<Rightarrow> obj \<Rightarrow> obj" where
  "Intersection A B =
     fmmap_keys
       (\<lambda>k p. case (declared A k, declared B k) of
                (Some pa, Some pb) \<Rightarrow> IntersectProps pa pb
              | _ \<Rightarrow> p)
       (A ++\<^sub>f B)"

text \<open>
  A record type: no property of it has two keys. Every object literal type is one; the
  intersection of \<^verbatim>\<open>{ 1: string }\<close> and \<^verbatim>\<open>{ '1': number }\<close> is not.
\<close>

definition record_type :: "obj \<Rightarrow> bool" where
  "record_type R = fBall (keyof R) (\<lambda>k. \<not> twin_in (keyof R) k)"

text \<open>
  Whether a type is assignable to \<^verbatim>\<open>Obj\<close>, that is to \<^verbatim>\<open>Record<any, any>\<close>, the object type
  with the index signature \<^verbatim>\<open>[x: string]: any\<close>: every object type is, no primitive is
  (\<^verbatim>\<open>undefined\<close> and \<^verbatim>\<open>null\<close> included), an unreduced intersection is when one of its
  members is, a union is when each member is (so \<^verbatim>\<open>never\<close> is), \<^verbatim>\<open>unknown\<close> is not,
  \<^verbatim>\<open>any\<close> is.
\<close>

fun is_object :: "atom \<Rightarrow> bool" where
  "is_object (AObj m) = True"
| "is_object (APrim p) = False"
| "is_object (AInter a b) = (is_object a \<or> is_object b)"

fun extends_Obj :: "ty \<Rightarrow> bool" where
  "extends_Obj TAny = True"
| "extends_Obj TUnknown = False"
| "extends_Obj (TUnion as) = fBall as is_object"

section \<open>The aliases of objects.ts\<close>

text \<open>
  An alias whose parameter carries a constraint \<^verbatim>\<open>extends keyof T\<close> returns \<open>None\<close> when
  the argument violates it: the checker rejects the instantiation. The constraint
  \<^verbatim>\<open>extends Obj\<close> on an object parameter holds for every object type.
\<close>

text \<open>\<^verbatim>\<open>type Obj<TValue = any, TKeys extends PropertyKey = any> = Record<TKeys, TValue>\<close>\<close>

definition Obj :: "ty \<Rightarrow> key fset \<Rightarrow> obj" where
  "Obj TValue TKeys = Record TKeys TValue"

text \<open>\<^verbatim>\<open>type ValueOf<TObj extends Obj> = TObj[keyof TObj]\<close>\<close>

definition ValueOf :: "obj \<Rightarrow> ty" where
  "ValueOf TObj = IndexedAccess TObj (keyof TObj)"

text \<open>\<^verbatim>\<open>type MapValues<TSrcObj extends Obj, TMappedValue> = Obj<TMappedValue, keyof TSrcObj>\<close>\<close>

definition MapValues :: "obj \<Rightarrow> ty \<Rightarrow> obj" where
  "MapValues TSrcObj TMappedValue = Obj TMappedValue (keyof TSrcObj)"

text \<open>
  \<^verbatim>\<open>type Merge<TObj1 extends Obj, TObj2 extends Obj> =
      Pick<TObj1, Exclude<keyof TObj1, keyof TObj2>> & TObj2\<close>
\<close>

definition Merge :: "obj \<Rightarrow> obj \<Rightarrow> obj" where
  "Merge TObj1 TObj2 = Intersection (Pick TObj1 (Exclude (keyof TObj1) (keyof TObj2))) TObj2"

text \<open>
  \<^verbatim>\<open>type ReplaceValues<TSrcObj extends Obj, TKeys extends keyof TSrcObj, TNewValue> =
      Merge<TSrcObj, Obj<TNewValue, TKeys>>\<close>
\<close>

definition ReplaceValues :: "obj \<Rightarrow> key fset \<Rightarrow> ty \<Rightarrow> obj option" where
  "ReplaceValues TSrcObj TKeys TNewValue =
     (if TKeys |\<subseteq>| keyof TSrcObj then Some (Merge TSrcObj (Obj TNewValue TKeys)) else None)"

text \<open>
  \<^verbatim>\<open>type RemoveKeys<TSrcObj extends Obj, TKeysUnion extends keyof TSrcObj> =
      Pick<TSrcObj, Exclude<keyof TSrcObj, TKeysUnion>>\<close>
\<close>

definition RemoveKeys :: "obj \<Rightarrow> key fset \<Rightarrow> obj option" where
  "RemoveKeys TSrcObj TKeysUnion =
     (if TKeysUnion |\<subseteq>| keyof TSrcObj
      then Some (Pick TSrcObj (Exclude (keyof TSrcObj) TKeysUnion)) else None)"

text \<open>
  \<^verbatim>\<open>type RenameKey<TObj extends Obj, TPrevKey extends keyof TObj, TNewKey extends PropertyKey> =
      Merge<RemoveKeys<TObj, TPrevKey>, Obj<TObj[TPrevKey], TNewKey>>\<close>
\<close>

definition RenameKey :: "obj \<Rightarrow> key fset \<Rightarrow> key fset \<Rightarrow> obj option" where
  "RenameKey TObj TPrevKey TNewKey =
     (if TPrevKey |\<subseteq>| keyof TObj
      then map_option (\<lambda>removed. Merge removed (Obj (IndexedAccess TObj TPrevKey) TNewKey))
             (RemoveKeys TObj TPrevKey)
      else None)"

text \<open>
  Modelled from the spec: \<^verbatim>\<open>CanBeUndef\<close> and \<^verbatim>\<open>If\<close> of \<^verbatim>\<open>./logical\<close> and \<^verbatim>\<open>PickAsOptional\<close> of
  \<^verbatim>\<open>./pick\<close> are imported by objects.ts and are not part of the sources at hand.
  \<^verbatim>\<open>CanBeUndef<T>\<close> holds when \<^verbatim>\<open>T\<close> admits \<^verbatim>\<open>undefined\<close> as a possible value, which
  includes \<^verbatim>\<open>unknown\<close> and \<^verbatim>\<open>any\<close>; \<^verbatim>\<open>If<C, A, B>\<close> is \<^verbatim>\<open>A\<close> when \<^verbatim>\<open>C\<close> is true and \<^verbatim>\<open>B\<close>
  otherwise; \<^verbatim>\<open>PickAsOptional<T, K>\<close> is \<^verbatim>\<open>T\<close> restricted to the keys \<^verbatim>\<open>K\<close> with each of
  them marked optional, that is \<^verbatim>\<open>Partial<Pick<T, K>>\<close>.
\<close>

fun CanBeUndef :: "ty \<Rightarrow> bool" where
  "CanBeUndef TAny = True"
| "CanBeUndef TUnknown = True"
| "CanBeUndef (TUnion as) = (APrim PUndefined |\<in>| as)"

definition If_t :: "bool \<Rightarrow> 'a \<Rightarrow> 'a \<Rightarrow> 'a" where
  "If_t TCond TIfTrue TElse = (if TCond then TIfTrue else TElse)"

definition PickAsOptional :: "obj \<Rightarrow> key fset \<Rightarrow> obj" where
  "PickAsOptional TObj TKeys = Partial (Pick TObj TKeys)"

text \<open>
  \<^verbatim>\<open>type PickLikelyUndefPropsAsOptional<TObj extends Obj> = PickAsOptional<
      TObj,
      ValueOf<{ [TKey in keyof TObj]-?: If<(CanBeUndef<TObj[TKey]>), TKey, never>; }>
  >\<close>

  The inner mapped type binds every key of \<^verbatim>\<open>TObj\<close> to a type of keys: the key itself or
  \<^verbatim>\<open>never\<close>. It is a record from keys to unions of keys, all of its properties required
  (\<^verbatim>\<open>-?\<close>), and \<^verbatim>\<open>ValueOf\<close> of it is the union of those unions.
\<close>

definition ValueOf_keys :: "(key, key fset) fmap \<Rightarrow> key fset" where
  "ValueOf_keys TObj = ffUnion (fmimage TObj (fmdom TObj))"

definition PickLikelyUndefPropsAsOptional :: "obj \<Rightarrow> obj" where
  "PickLikelyUndefPropsAsOptional TObj =
     PickAsOptional TObj
       (ValueOf_keys
          (fmmap_keys (\<lambda>TKey _. If_t (CanBeUndef (IndexedAccess TObj {|TKey|})) {|TKey|} {||}) TObj))"

text \<open>
  \<^verbatim>\<open>type OptionalLikelyUndefProps<TObj extends Obj> =
      Merge<TObj, PickLikelyUndefPropsAsOptional<TObj>>\<close>
\<close>

definition OptionalLikelyUndefProps :: "obj \<Rightarrow> obj" where
  "OptionalLikelyUndefProps TObj = Merge TObj (PickLikelyUndefPropsAsOptional TObj)"

text \<open>
  \<^verbatim>\<open>type DeepMapValues<TSrcObj extends Obj, TMappedValue> = {
      [TKey in keyof TSrcObj]: TSrcObj[TKey] extends Obj
          ? DeepMapValues<TSrcObj[TKey], TMappedValue>
          : TMappedValue;
  }\<close>

  The mapped type is homomorphic in \<^verbatim>\<open>TSrcObj\<close>: it has the keys of \<^verbatim>\<open>TSrcObj\<close>, each with
  the modifiers it has there, and the checker includes \<^verbatim>\<open>undefined\<close> in the type of a
  property that stays optional. \<open>DeepMapValues_property\<close> is the template at one property.
  The conditional type is not distributive (its check type \<^verbatim>\<open>TSrcObj[TKey]\<close> is no bare
  type parameter), so a union is tested as a whole. Instantiated with a union, a
  homomorphic mapped type is the union of its instances at the members
  (\<open>DeepMapValues_ty\<close>), hence \<^verbatim>\<open>never\<close> at \<^verbatim>\<open>never\<close>.

  The result is \<open>None\<close> where no type of the universe is denoted. For a property read as
  \<^verbatim>\<open>any\<close> the conditional type is the union of both branches, and its first member
  \<^verbatim>\<open>DeepMapValues<any, TMappedValue>\<close> is a record with an index signature whose value
  type mentions that record again, without end. A primitive or \<^verbatim>\<open>unknown\<close> as the type
  argument violates the constraint \<^verbatim>\<open>TSrcObj extends Obj\<close>; the template never passes one.
  The mapped type over an unreduced intersection is not modelled.

  The recursive call is written on the declared type of the property. That is the type
  read at the key whenever the call is made (lemma \<open>DeepMapValues_property_read\<close> gives
  the template with \<^verbatim>\<open>TSrcObj[TKey]\<close> in the call, as the source has it).
\<close>

definition sequence_fset :: "'a option fset \<Rightarrow> 'a fset option" where
  "sequence_fset S = (if None |\<in>| S then None else Some (the |`| S))"

definition sequence_fmap :: "('k, 'v option) fmap \<Rightarrow> ('k, 'v) fmap option" where
  "sequence_fmap m = (if None |\<in>| fmran m then None else Some (fmmap the m))"

primrec DeepMapValues_ty :: "ty \<Rightarrow> ty \<Rightarrow> ty option"
  and DeepMapValues_atom :: "atom \<Rightarrow> ty \<Rightarrow> atom option"
  and DeepMapValues_property :: "property \<Rightarrow> ty \<Rightarrow> property option" where
  "DeepMapValues_ty TAny TMappedValue = None"
| "DeepMapValues_ty TUnknown TMappedValue = None"
| "DeepMapValues_ty (TUnion as) TMappedValue =
     map_option TUnion (sequence_fset ((\<lambda>a. DeepMapValues_atom a TMappedValue) |`| as))"
| "DeepMapValues_atom (APrim p) TMappedValue = None"
| "DeepMapValues_atom (AInter a b) TMappedValue = None"
| "DeepMapValues_atom (AObj TSrcObj) TMappedValue =
     map_option AObj
       (sequence_fmap (fmmap (\<lambda>p. DeepMapValues_property p TMappedValue) TSrcObj))"
| "DeepMapValues_property (Prop t opt ro) TMappedValue =
     map_option (\<lambda>r. Prop (if opt then OrUndefined r else r) opt ro)
       (if read_type (Prop t opt ro) = TAny then None
        else if extends_Obj (read_type (Prop t opt ro)) then DeepMapValues_ty t TMappedValue
        else Some TMappedValue)"

definition DeepMapValues :: "obj \<Rightarrow> ty \<Rightarrow> obj option" where
  "DeepMapValues TSrcObj TMappedValue =
     sequence_fmap (fmmap (\<lambda>p. DeepMapValues_property p TMappedValue) TSrcObj)"

text \<open>
  A type, a property or a record on which \<open>DeepMapValues\<close> stays inside the universe:
  neither \<^verbatim>\<open>any\<close> nor an unreduced intersection occurs in it.
\<close>

primrec plain_ty :: "ty \<Rightarrow> bool"
  and plain_atom :: "atom \<Rightarrow> bool"
  and plain_property :: "property \<Rightarrow> bool" where
  "plain_ty TAny = False"
| "plain_ty TUnknown = True"
| "plain_ty (TUnion as) = (False |\<notin>| (\<lambda>a. plain_atom a) |`| as)"
| "plain_atom (APrim p) = True"
| "plain_atom (AObj m) = (False |\<notin>| fmran (fmmap (\<lambda>p. plain_property p) m))"
| "plain_atom (AInter a b) = False"
| "plain_property (Prop t opt ro) = plain_ty t"

definition plain :: "obj \<Rightarrow> bool" where
  "plain R = plain_atom (AObj R)"

section \<open>Example records\<close>

text \<open>\<^verbatim>\<open>{ readonly a?: string; b: number }\<close>\<close>

definition example_ab :: obj where
  "example_ab = fmap_of_list [(StrKey ''a'', Prop TString True True), (StrKey ''b'', Prop TNumber False False)]"

text \<open>\<^verbatim>\<open>{ a: string; b: string | undefined }\<close>, the record of the specification's example.\<close>

definition example_undef :: obj where
  "example_undef =
     fmap_of_list [(StrKey ''a'', Prop TString False False),
                   (StrKey ''b'', Prop (TUnion {|APrim PString, APrim PUndefined|}) False False)]"

text \<open>\<^verbatim>\<open>{ b: boolean; readonly c?: null }\<close> and \<^verbatim>\<open>{ a: string; n: { b: boolean; readonly c?: null } }\<close>\<close>

definition example_inner :: obj where
  "example_inner = fmap_of_list [(StrKey ''b'', Prop TBoolean False False), (StrKey ''c'', Prop TNull True True)]"

definition example_nested :: obj where
  "example_nested =
     fmap_of_list [(StrKey ''a'', Prop TString False False),
                   (StrKey ''n'', Prop (TObject example_inner) False False)]"

text \<open>\<^verbatim>\<open>{ a: never }\<close> and \<^verbatim>\<open>{ a?: { b: string } }\<close>\<close>

definition example_never :: obj where
  "example_never = fmap_of_list [(StrKey ''a'', Prop TNever False False)]"

definition example_optional_nested :: obj where
  "example_optional_nested =
     fmap_of_list [(StrKey ''a'', Prop (TObject (fmap_of_list [(StrKey ''b'', Prop TString False False)])) True False)]"

text \<open>\<^verbatim>\<open>{ u: unknown; v: any; w: number }\<close>\<close>

definition example_top :: obj where
  "example_top =
     fmap_of_list [(StrKey ''u'', Prop TUnknown False False), (StrKey ''v'', Prop TAny False False),
                   (StrKey ''w'', Prop TNumber False False)]"



definition example_num1_b :: obj where
  "example_num1_b =
     fmap_of_list [(NumKey ''1'', Prop TString False False), (StrKey ''b'', Prop TNumber False False)]"

text \<open>\<^verbatim>\<open>{ u: { x: string } | { y: boolean } }\<close>, with the two members of the union.\<close>

definition example_x :: obj where
  "example_x = fmap_of_list [(StrKey ''x'', Prop TString False False)]"

definition example_y :: obj where
  "example_y = fmap_of_list [(StrKey ''y'', Prop TBoolean False False)]"

definition example_choice :: obj where
  "example_choice =
     fmap_of_list [(StrKey ''u'', Prop (TUnion {|AObj example_x, AObj example_y|}) False False)]"

section \<open>Facts about the operators\<close>

subsection \<open>Lookup and keys of Record and Pick\<close>

lemma fmlookup_Record:
  "fmlookup (Record K T) k = (if k |\<in>| K then Some (Prop T False False) else None)"
proof -
  have "dom (\<lambda>k. if k |\<in>| K then Some (Prop T False False) else None) = fset K"
    by (simp add: dom_if)
  then have "finite (dom (\<lambda>k. if k |\<in>| K then Some (Prop T False False) else None))"
    by simp
  then show ?thesis
    by (simp add: Record_def Abs_fmap_inverse)
qed

text \<open>Equations that compute \<open>Record\<close> on a given set of keys.\<close>

lemma Record_code [code]: "Record K T = record_on (fset K) T"
  by (simp add: Record_def record_on_def)

lemma record_on_code [code]:
  "record_on (set ks) T = fmap_of_list (map (\<lambda>k. (k, Prop T False False)) ks)"
proof (rule fmap_ext)
  fix k
  have "finite (dom (\<lambda>k. if k \<in> set ks then Some (Prop T False False) else None))"
    by (simp add: dom_if)
  then show "fmlookup (record_on (set ks) T) k
      = fmlookup (fmap_of_list (map (\<lambda>k. (k, Prop T False False)) ks)) k"
    by (auto simp: record_on_def Abs_fmap_inverse fmlookup_of_list map_of_map_restrict
        restrict_map_def)
qed

lemma fmlookup_Pick:
  "fmlookup (Pick T K) k = (if k |\<in>| K then fmlookup T k else None)"
  by (simp add: Pick_def)

lemma keyof_iff: "k |\<in>| keyof T \<longleftrightarrow> fmlookup T k \<noteq> None"
  by (auto simp: keyof_def fmlookup_dom_iff)

lemma keyof_Record: "keyof (Record K T) = K"
  by (rule fset_eqI) (simp add: keyof_iff fmlookup_Record)

lemma keyof_Pick: "keyof (Pick T K) = keyof T |\<inter>| K"
  by (rule fset_eqI) (simp add: keyof_iff fmlookup_Pick)

subsection \<open>Keys of the two kinds\<close>

lemma twin_sym: "twin k = Some k' \<longleftrightarrow> twin k' = Some k"
  by (cases k; cases k') auto

lemma twin_neq: "twin k = Some k' \<Longrightarrow> k' \<noteq> k"
  by (cases k) auto

lemma twin_in_iff: "twin_in K k \<longleftrightarrow> (\<exists>k'. twin k = Some k' \<and> k' |\<in>| K)"
  by (cases "twin k") (simp_all add: twin_in_def)

lemma twin_in_mono: "twin_in K k \<Longrightarrow> K |\<subseteq>| K' \<Longrightarrow> twin_in K' k"
  by (auto simp: twin_in_iff)

lemma record_type_iff:
  "record_type R \<longleftrightarrow> (\<forall>k k'. k |\<in>| keyof R \<and> twin k = Some k' \<longrightarrow> k' |\<notin>| keyof R)"
  by (auto simp: record_type_def twin_in_iff)

lemma declared_here: "fmlookup T k = Some p \<Longrightarrow> declared T k = Some p"
  by (simp add: declared_def)

lemma declared_nowhere:
  "k |\<notin>| keyof T \<Longrightarrow> \<not> twin_in (keyof T) k \<Longrightarrow> declared T k = None"
  by (cases "twin k") (auto simp: declared_def keyof_iff twin_in_def)

lemma declared_None_iff:
  "declared T k = None \<longleftrightarrow> k |\<notin>| keyof T \<and> \<not> twin_in (keyof T) k"
  by (cases "twin k"; cases "fmlookup T k") (auto simp: declared_def keyof_iff twin_in_def)

subsection \<open>Intersection and Merge\<close>

lemma fmlookup_Intersection:
  "fmlookup (Intersection A B) k =
     (if k |\<in>| keyof A |\<union>| keyof B
      then (case (declared A k, declared B k) of
              (Some pa, Some pb) \<Rightarrow> Some (IntersectProps pa pb)
            | (Some pa, None) \<Rightarrow> Some pa
            | (None, Some pb) \<Rightarrow> Some pb
            | (None, None) \<Rightarrow> None)
      else None)"
proof (cases "k |\<in>| keyof A |\<union>| keyof B")
  case False
  then show ?thesis
    by (auto simp: Intersection_def keyof_iff fmlookup_dom_iff)
next
  case True
  show ?thesis
  proof (cases "fmlookup B k")
    case (Some pb)
    then show ?thesis
      using True
      by (cases "declared A k")
         (auto simp: Intersection_def declared_here keyof_iff fmlookup_dom_iff)
  next
    case None
    with True obtain pa where pa: "fmlookup A k = Some pa"
      by (auto simp: keyof_iff)
    with None True show ?thesis
      by (cases "declared B k")
         (auto simp: Intersection_def declared_here keyof_iff fmlookup_dom_iff)
  qed
qed

lemma keyof_Intersection: "keyof (Intersection A B) = keyof A |\<union>| keyof B"
  by (rule fset_eqI) (auto simp: keyof_def Intersection_def)

lemma keyof_Merge: "keyof (Merge T1 T2) = Exclude (keyof T1) (keyof T2) |\<union>| keyof T2"
  by (rule fset_eqI) (auto simp: Merge_def keyof_Intersection keyof_Pick Exclude_def)

lemma declared_Merge_left:
  "k |\<in>| keyof T2 \<Longrightarrow> \<not> twin_in (keyof T1 |-| keyof T2) k \<Longrightarrow>
   declared (Pick T1 (Exclude (keyof T1) (keyof T2))) k = None"
  by (rule declared_nowhere) (auto simp: keyof_Pick Exclude_def twin_in_iff)

lemma Merge_at_right:
  assumes "k |\<in>| keyof T2" and "\<not> twin_in (keyof T1 |-| keyof T2) k"
  shows "fmlookup (Merge T1 T2) k = fmlookup T2 k"
proof -
  from assms(1) obtain p where p: "fmlookup T2 k = Some p"
    by (auto simp: keyof_iff)
  with assms show ?thesis
    by (simp add: Merge_def fmlookup_Intersection declared_Merge_left declared_here)
qed

lemma Merge_at_left:
  assumes "k |\<in>| keyof T1" and "k |\<notin>| keyof T2" and "\<not> twin_in (keyof T2) k"
  shows "fmlookup (Merge T1 T2) k = fmlookup T1 k"
proof -
  from assms(1) obtain p where p: "fmlookup T1 k = Some p"
    by (auto simp: keyof_iff)
  have "declared (Pick T1 (Exclude (keyof T1) (keyof T2))) k = Some p"
    using assms p by (intro declared_here) (simp add: fmlookup_Pick Exclude_def)
  moreover from assms have "declared T2 k = None"
    by (simp add: declared_None_iff)
  ultimately show ?thesis
    using assms p by (simp add: Merge_def fmlookup_Intersection keyof_Pick Exclude_def)
qed

lemma Merge_outside:
  assumes "k |\<notin>| keyof T1" and "k |\<notin>| keyof T2"
  shows "fmlookup (Merge T1 T2) k = None"
proof -
  from assms have "k |\<notin>| keyof (Merge T1 T2)"
    by (simp add: keyof_Merge Exclude_def)
  then show ?thesis by (simp add: keyof_iff)
qed

text \<open>
  Where no property of the right operand is declared by the rest of the left operand
  under the key of the other kind, the intersection in \<open>Merge\<close> joins properties of
  different names and \<open>Merge\<close> is an override.
\<close>

lemma fmlookup_Merge:
  assumes "\<And>k. k |\<in>| keyof T2 \<Longrightarrow> \<not> twin_in (keyof T1 |-| keyof T2) k"
  shows "fmlookup (Merge T1 T2) k
         = (case fmlookup T2 k of Some p \<Rightarrow> Some p | None \<Rightarrow> fmlookup T1 k)"
proof (cases "k |\<in>| keyof T2")
  case True
  with assms show ?thesis
    by (auto simp: Merge_at_right keyof_iff)
next
  case False
  show ?thesis
  proof (cases "k |\<in>| keyof T1")
    case k1: True
    have "\<not> twin_in (keyof T2) k"
    proof
      assume "twin_in (keyof T2) k"
      then obtain k' where k': "twin k = Some k'" "k' |\<in>| keyof T2"
        by (auto simp: twin_in_iff)
      then have "twin k' = Some k" by (simp add: twin_sym)
      with k1 False have "twin_in (keyof T1 |-| keyof T2) k'"
        by (simp add: twin_in_iff)
      with assms k'(2) show False by blast
    qed
    with k1 False show ?thesis
      by (auto simp: Merge_at_left keyof_iff)
  next
    case k1: False
    with False show ?thesis
      by (auto simp: Merge_outside keyof_iff)
  qed
qed

lemma Merge_modifiers:
  assumes "fmlookup T2 k = Some q"
  shows "\<exists>p. fmlookup (Merge T1 T2) k = Some p
           \<and> (optional p \<longrightarrow> optional q) \<and> (readonly p \<longrightarrow> readonly q)"
proof -
  from assms have k: "k |\<in>| keyof T2" by (simp add: keyof_iff)
  show ?thesis
    using assms k
    by (cases "declared (Pick T1 (Exclude (keyof T1) (keyof T2))) k")
       (auto simp: Merge_def fmlookup_Intersection declared_here IntersectProps_def)
qed

subsection \<open>Indexed access at one key\<close>

lemma UnionOf_single: "UnionOf {|t|} = t"
  by (cases t) (simp_all add: UnionOf_def)

lemma fmimage_single:
  "fmlookup T k = Some p \<Longrightarrow> fmimage T {|k|} = {|p|}"
  by (rule fset_eqI) (auto simp: fmlookup_image_iff)

lemma IndexedAccess_single:
  "fmlookup T k = Some p \<Longrightarrow> IndexedAccess T {|k|} = read_type p"
  by (simp add: IndexedAccess_def fmimage_single UnionOf_single)

subsection \<open>The aliases as operations on finite maps\<close>

lemma fmlookup_RemoveKeys:
  "RemoveKeys T K = Some T' \<Longrightarrow> fmlookup T' k = (if k |\<in>| K then None else fmlookup T k)"
  by (auto simp: RemoveKeys_def fmlookup_Pick Exclude_def keyof_iff split: if_splits)

lemma RemoveKeys_eq:
  "K |\<subseteq>| keyof T \<Longrightarrow> RemoveKeys T K = Some (fmdrop_fset K T)"
  unfolding RemoveKeys_def
  by (simp, intro fmap_ext) (auto simp: fmlookup_Pick Exclude_def keyof_iff)

lemma keyof_fmdrop: "keyof (fmdrop k T) = keyof T |-| {|k|}"
  by (rule fset_eqI) (auto simp: keyof_iff)

text \<open>
  \<open>RenameKey\<close> where the rest of the record does not declare the property of the new
  key under the key of the other kind.
\<close>

lemma RenameKey_eq:
  assumes "fmlookup R old = Some p" and "\<not> twin_in (keyof R |-| {|old|}) new"
  shows "RenameKey R {|old|} {|new|} = Some (fmupd new (Prop (read_type p) False False) (fmdrop old R))"
proof -
  have k: "old |\<in>| keyof R"
    using assms by (simp add: keyof_iff)
  have apart: "\<not> twin_in (keyof (fmdrop_fset {|old|} R) |-| keyof (Obj (IndexedAccess R {|old|}) {|new|})) k"
    if "k |\<in>| keyof (Obj (IndexedAccess R {|old|}) {|new|})" for k
  proof -
    from that have "k = new" by (simp add: Obj_def keyof_Record)
    moreover have "keyof (fmdrop_fset {|old|} R) |-| keyof (Obj (IndexedAccess R {|old|}) {|new|})
        |\<subseteq>| keyof R |-| {|old|}"
      by (rule fsubsetI) (auto simp: keyof_iff split: if_splits)
    ultimately show ?thesis
      using assms(2) by (auto dest: twin_in_mono)
  qed
  have l: "fmlookup (Merge (fmdrop_fset {|old|} R) (Obj (IndexedAccess R {|old|}) {|new|})) k
        = (case fmlookup (Obj (IndexedAccess R {|old|}) {|new|}) k of
             Some p \<Rightarrow> Some p | None \<Rightarrow> fmlookup (fmdrop_fset {|old|} R) k)" for k
    by (rule fmlookup_Merge) (rule apart)
  have "Merge (fmdrop_fset {|old|} R) (Obj (IndexedAccess R {|old|}) {|new|})
        = fmupd new (Prop (read_type p) False False) (fmdrop old R)"
    by (rule fmap_ext)
       (unfold l, simp add: Obj_def fmlookup_Record IndexedAccess_single [OF assms(1)])
  then show ?thesis
    by (simp add: RenameKey_def k RemoveKeys_eq)
qed

text \<open>The binding of the new key is required and mutable in every case.\<close>

lemma RenameKey_new_binding:
  assumes "old |\<in>| keyof R"
  shows "\<exists>R' p. RenameKey R {|old|} {|new|} = Some R' \<and> fmlookup R' new = Some p
           \<and> \<not> optional p \<and> \<not> readonly p"
proof -
  have "fmlookup (Obj (IndexedAccess R {|old|}) {|new|}) new
        = Some (Prop (IndexedAccess R {|old|}) False False)"
    by (simp add: Obj_def fmlookup_Record)
  from Merge_modifiers [OF this, of "fmdrop_fset {|old|} R"] show ?thesis
    using assms by (auto simp: RenameKey_def RemoveKeys_eq)
qed

lemma record_type_twin:
  "record_type R \<Longrightarrow> k |\<in>| keyof R \<Longrightarrow> \<not> twin_in (keyof R) k"
  by (simp add: record_type_def)

lemma record_type_apart:
  assumes "record_type R" and "K |\<subseteq>| keyof R" and "k |\<in>| K"
  shows "\<not> twin_in (keyof R |-| K) k"
proof
  assume "twin_in (keyof R |-| K) k"
  then have "twin_in (keyof R) k" by (rule twin_in_mono) auto
  moreover from assms have "k |\<in>| keyof R" by auto
  ultimately show False using assms(1) by (simp add: record_type_twin)
qed

lemma ReplaceValues_lookup:
  assumes "record_type R" and "Keys |\<subseteq>| keyof R"
  shows "\<exists>R'. ReplaceValues R Keys V = Some R' \<and>
     (\<forall>k. fmlookup R' k = (if k |\<in>| Keys then Some (Prop V False False) else fmlookup R k))"
proof -
  have "\<not> twin_in (keyof R |-| keyof (Obj V Keys)) k" if "k |\<in>| keyof (Obj V Keys)" for k
    using that assms by (simp add: Obj_def keyof_Record record_type_apart)
  from fmlookup_Merge [of "Obj V Keys" R, OF this] assms(2) show ?thesis
    by (simp add: ReplaceValues_def Obj_def fmlookup_Record)
qed

text \<open>The bindings of the replaced keys are required and mutable in every case.\<close>

lemma ReplaceValues_new_bindings:
  assumes "Keys |\<subseteq>| keyof R"
  shows "\<exists>R'. ReplaceValues R Keys V = Some R'
           \<and> (\<forall>k. k |\<in>| Keys \<longrightarrow> (\<exists>p. fmlookup R' k = Some p \<and> \<not> optional p \<and> \<not> readonly p))"
proof -
  have "\<exists>p. fmlookup (Merge R (Obj V Keys)) k = Some p \<and> \<not> optional p \<and> \<not> readonly p"
    if "k |\<in>| Keys" for k
  proof -
    from that have "fmlookup (Obj V Keys) k = Some (Prop V False False)"
      by (simp add: Obj_def fmlookup_Record)
    from Merge_modifiers [OF this, of R] show ?thesis by auto
  qed
  with assms show ?thesis
    by (simp add: ReplaceValues_def)
qed

lemma fmlookup_MapValues:
  "fmlookup (MapValues R X) k = (if k |\<in>| keyof R then Some (Prop X False False) else None)"
  by (simp add: MapValues_def Obj_def fmlookup_Record)

lemma keyof_MapValues: "keyof (MapValues R X) = keyof R"
  by (simp add: MapValues_def Obj_def keyof_Record)

subsection \<open>The example records\<close>

lemma example_ab_lookup:
  "fmlookup example_ab k =
     (if k = StrKey ''a'' then Some (Prop TString True True)
      else if k = StrKey ''b'' then Some (Prop TNumber False False) else None)"
  by (simp add: example_ab_def)

lemma keyof_example_ab: "keyof example_ab = {|StrKey ''a'', StrKey ''b''|}"
  by (rule fset_eqI) (auto simp: keyof_iff example_ab_lookup)

lemma record_type_example_ab: "record_type example_ab"
  by (simp add: record_type_def keyof_example_ab twin_in_def)





lemma example_num1_b_lookup:
  "fmlookup example_num1_b k =
     (if k = NumKey ''1'' then Some (Prop TString False False)
      else if k = StrKey ''b'' then Some (Prop TNumber False False) else None)"
  by (simp add: example_num1_b_def)

lemma keyof_example_num1_b: "keyof example_num1_b = {|NumKey ''1'', StrKey ''b''|}"
  by (rule fset_eqI) (auto simp: keyof_iff example_num1_b_lookup)

lemma string_and_number: "IntersectTypes TString TNumber = TNever"
  by (simp add: IntersectAtoms_def)


lemma example_undef_lookup:
  "fmlookup example_undef k =
     (if k = StrKey ''a'' then Some (Prop TString False False)
      else if k = StrKey ''b'' then Some (Prop (TUnion {|APrim PString, APrim PUndefined|}) False False)
      else None)"
  by (simp add: example_undef_def)

lemma keyof_example_undef: "keyof example_undef = {|StrKey ''a'', StrKey ''b''|}"
  by (rule fset_eqI) (auto simp: keyof_iff example_undef_lookup)

subsection \<open>The keys that OptionalLikelyUndefProps selects\<close>

lemma fmember_ffUnion: "x |\<in>| ffUnion A \<longleftrightarrow> (\<exists>S. S |\<in>| A \<and> x |\<in>| S)"
  by (induct A) auto

lemma likely_undef_keys:
  "ValueOf_keys (fmmap_keys (\<lambda>TKey _. If_t (CanBeUndef (IndexedAccess T {|TKey|})) {|TKey|} {||}) T)
     = ffilter (\<lambda>k. CanBeUndef (IndexedAccess T {|k|})) (keyof T)"
  (is "ValueOf_keys ?m = _")
proof (rule fset_eqI)
  fix k
  have "k |\<in>| ValueOf_keys ?m \<longleftrightarrow> (\<exists>S. S |\<in>| fmimage ?m (fmdom ?m) \<and> k |\<in>| S)"
    by (simp add: ValueOf_keys_def fmember_ffUnion)
  also have "\<dots> \<longleftrightarrow> (\<exists>k' p. fmlookup T k' = Some p \<and> k |\<in>| If_t (CanBeUndef (IndexedAccess T {|k'|})) {|k'|} {||})"
    by (auto simp: fmlookup_image_iff fmlookup_dom_iff)
  also have "\<dots> \<longleftrightarrow> k |\<in>| keyof T \<and> CanBeUndef (IndexedAccess T {|k|})"
    by (auto simp: If_t_def keyof_iff split: if_splits)
  finally show "k |\<in>| ValueOf_keys ?m \<longleftrightarrow> k |\<in>| ffilter (\<lambda>k. CanBeUndef (IndexedAccess T {|k|})) (keyof T)"
    by auto
qed

lemma fmlookup_PickLikelyUndefPropsAsOptional:
  "fmlookup (PickLikelyUndefPropsAsOptional T) k =
     (case fmlookup T k of
        None \<Rightarrow> None
      | Some p \<Rightarrow> if CanBeUndef (read_type p)
                  then Some (Prop (OrUndefined (read_type p)) True (readonly p)) else None)"
  by (cases "fmlookup T k")
     (auto simp: PickLikelyUndefPropsAsOptional_def likely_undef_keys PickAsOptional_def
        Partial_def fmlookup_Pick keyof_iff IndexedAccess_single)

lemma keyof_PickLikelyUndefPropsAsOptional:
  "keyof (PickLikelyUndefPropsAsOptional T) |\<subseteq>| keyof T"
  by (rule fsubsetI)
     (auto simp: keyof_iff fmlookup_PickLikelyUndefPropsAsOptional split: option.splits)

lemma OrUndefined_CanBeUndef: "CanBeUndef t \<Longrightarrow> OrUndefined t = t"
  by (cases t) (auto simp: OrUndefined_def UnionOf_def)

lemma CanBeUndef_OrUndefined: "CanBeUndef (OrUndefined t)"
  by (cases t) (auto simp: OrUndefined_def UnionOf_def)

lemma fmlookup_OptionalLikelyUndefProps:
  assumes "record_type T"
  shows "fmlookup (OptionalLikelyUndefProps T) k =
     (case fmlookup T k of
        None \<Rightarrow> None
      | Some p \<Rightarrow> if CanBeUndef (read_type p)
                  then Some (Prop (read_type p) True (readonly p)) else Some p)"
proof -
  have apart: "\<not> twin_in (keyof T |-| keyof (PickLikelyUndefPropsAsOptional T)) k"
    if "k |\<in>| keyof (PickLikelyUndefPropsAsOptional T)" for k
    using assms keyof_PickLikelyUndefPropsAsOptional that by (rule record_type_apart)
  have l: "fmlookup (Merge T (PickLikelyUndefPropsAsOptional T)) k
      = (case fmlookup (PickLikelyUndefPropsAsOptional T) k of
           Some p \<Rightarrow> Some p | None \<Rightarrow> fmlookup T k)"
    by (rule fmlookup_Merge) (rule apart)
  show ?thesis
    by (cases "fmlookup T k")
       (simp_all add: OptionalLikelyUndefProps_def l
          fmlookup_PickLikelyUndefPropsAsOptional OrUndefined_CanBeUndef)
qed

lemma record_type_example_undef: "record_type example_undef"
  by (simp add: record_type_def keyof_example_undef twin_in_def)

lemma read_type_required: "read_type (Prop t False ro) = t"
  by (simp add: read_type_def)

lemma example_top_lookup:
  "fmlookup example_top k =
     (if k = StrKey ''u'' then Some (Prop TUnknown False False)
      else if k = StrKey ''v'' then Some (Prop TAny False False)
      else if k = StrKey ''w'' then Some (Prop TNumber False False) else None)"
  by (simp add: example_top_def)

lemma keyof_example_top: "keyof example_top = {|StrKey ''u'', StrKey ''v'', StrKey ''w''|}"
  by (rule fset_eqI) (auto simp: keyof_iff example_top_lookup)

lemma record_type_example_top: "record_type example_top"
  by (simp add: record_type_def keyof_example_top twin_in_def)

subsection \<open>DeepMapValues: results, definedness, evaluation\<close>

lemma sequence_fmap_lookup:
  assumes "sequence_fmap m = Some m'"
  shows "fmlookup m k = map_option Some (fmlookup m' k)"
proof -
  from assms have n: "None |\<notin>| fmran m" and m': "m' = fmmap the m"
    by (auto simp: sequence_fmap_def split: if_splits)
  show ?thesis
  proof (cases "fmlookup m k")
    case None
    then show ?thesis by (simp add: m')
  next
    case (Some v)
    then have "v |\<in>| fmran m" by (auto simp: fmlookup_ran_iff)
    with n have "v \<noteq> None" by (cases v) simp_all
    with Some show ?thesis by (auto simp: m')
  qed
qed

lemma sequence_fset_single: "sequence_fset {|x|} = map_option (\<lambda>y. {|y|}) x"
  by (cases x) (simp_all add: sequence_fset_def)

lemma DeepMapValues_atom_AObj:
  "DeepMapValues_atom (AObj m) V = map_option AObj (DeepMapValues m V)"
  by (simp add: DeepMapValues_def)

lemma DeepMapValues_ty_TObject:
  "DeepMapValues_ty (TObject m) V = map_option TObject (DeepMapValues m V)"
  by (simp add: sequence_fset_single DeepMapValues_def option.map_comp comp_def)

lemma DeepMapValues_ty_TNever: "DeepMapValues_ty TNever V = Some TNever"
  by (simp add: sequence_fset_def)

lemma DeepMapValues_lookup:
  assumes "DeepMapValues R V = Some R'"
  shows "map_option (\<lambda>p. DeepMapValues_property p V) (fmlookup R k)
         = map_option Some (fmlookup R' k)"
  using sequence_fmap_lookup [OF assms [unfolded DeepMapValues_def], of k]
  by simp

lemma extends_Obj_OrUndefined: "extends_Obj (OrUndefined t) \<Longrightarrow> t = TAny"
  by (cases t) (auto simp: OrUndefined_def UnionOf_def)

lemma OrUndefined_TAny: "OrUndefined t = TAny \<longleftrightarrow> t = TAny"
  by (cases t) (auto simp: OrUndefined_def UnionOf_def)

lemma read_type_TAny: "read_type p = TAny \<longleftrightarrow> ptype p = TAny"
  by (simp add: read_type_def OrUndefined_TAny)

lemma extends_Obj_read_type:
  "extends_Obj (read_type p) \<Longrightarrow> read_type p \<noteq> TAny \<Longrightarrow> read_type p = ptype p \<and> \<not> optional p"
  by (auto simp: read_type_def OrUndefined_TAny dest: extends_Obj_OrUndefined split: if_splits)

text \<open>
  The template as the source writes it, with the type read at the key in the recursive
  call.
\<close>

lemma DeepMapValues_property_read:
  "DeepMapValues_property p V =
     map_option (\<lambda>r. Prop (if optional p then OrUndefined r else r) (optional p) (readonly p))
       (if read_type p = TAny then None
        else if extends_Obj (read_type p) then DeepMapValues_ty (read_type p) V
        else Some V)"
  by (cases p) (auto dest: extends_Obj_read_type)

lemma plain_defined:
  shows "plain_ty t \<longrightarrow> extends_Obj t \<longrightarrow> DeepMapValues_ty t V \<noteq> None"
    and "plain_atom a \<longrightarrow> is_object a \<longrightarrow> DeepMapValues_atom a V \<noteq> None"
    and "plain_property p \<longrightarrow> DeepMapValues_property p V \<noteq> None"
proof (induction t and a and p)
  case (TUnion as)
  show ?case
  proof (intro impI)
    assume af: "plain_ty (TUnion as)" and ex: "extends_Obj (TUnion as)"
    have "None |\<notin>| (\<lambda>a. DeepMapValues_atom a V) |`| as"
    proof
      assume "None |\<in>| (\<lambda>a. DeepMapValues_atom a V) |`| as"
      then obtain a where a: "a |\<in>| as" and n: "DeepMapValues_atom a V = None" by auto
      from af a have "plain_atom a" by auto
      moreover from ex a have "is_object a" by auto
      ultimately show False using TUnion.IH [OF a] n by simp
    qed
    then show "DeepMapValues_ty (TUnion as) V \<noteq> None"
      by (simp add: sequence_fset_def)
  qed
next
  case (AObj m)
  show ?case
  proof (intro impI)
    assume af: "plain_atom (AObj m)"
    have "None |\<notin>| fmran (fmmap (\<lambda>p. DeepMapValues_property p V) m)"
    proof
      assume "None |\<in>| fmran (fmmap (\<lambda>p. DeepMapValues_property p V) m)"
      then obtain k p where p: "fmlookup m k = Some p" and n: "DeepMapValues_property p V = None"
        by (auto simp: fmlookup_ran_iff)
      from p have r: "p \<in> fmran' m" by (auto simp: fmlookup_ran'_iff)
      from af p have "plain_property p" by (auto simp: fmlookup_ran_iff)
      with AObj.IH [OF r] n show False by simp
    qed
    then show "DeepMapValues_atom (AObj m) V \<noteq> None"
      by (simp add: sequence_fmap_def)
  qed
next
  case (Prop t opt ro)
  show ?case
  proof (intro impI)
    assume af: "plain_property (Prop t opt ro)"
    then have t: "plain_ty t" "t \<noteq> TAny" by auto
    then have r: "read_type (Prop t opt ro) \<noteq> TAny" by (simp add: read_type_TAny)
    show "DeepMapValues_property (Prop t opt ro) V \<noteq> None"
    proof (cases "extends_Obj (read_type (Prop t opt ro))")
      case True
      with r have "read_type (Prop t opt ro) = t" by (auto dest: extends_Obj_read_type)
      with True t Prop.IH r show ?thesis by simp
    next
      case False
      with r show ?thesis by simp
    qed
  qed
qed simp_all

lemma DeepMapValues_defined:
  assumes "plain R"
  shows "\<exists>R'. DeepMapValues R V = Some R'"
  using plain_defined(2) [of "AObj R" V] assms
  by (auto simp: plain_def DeepMapValues_def)

lemma sequence_fmap_eqI:
  assumes "\<And>k. fmlookup m k = map_option Some (fmlookup m' k)"
  shows "sequence_fmap m = Some m'"
proof -
  have "None |\<notin>| fmran m"
    using assms by (auto simp: fmlookup_ran_iff)
  moreover have "fmmap the m = m'"
    by (rule fmap_ext) (simp add: assms option.map_comp comp_def option.map_ident)
  ultimately show ?thesis by (simp add: sequence_fmap_def)
qed

lemma DeepMapValues_eqI:
  assumes "\<And>k. map_option (\<lambda>p. DeepMapValues_property p V) (fmlookup R k)
               = map_option Some (fmlookup R' k)"
  shows "DeepMapValues R V = Some R'"
  unfolding DeepMapValues_def by (rule sequence_fmap_eqI) (simp add: assms)

lemma plain_iff:
  "plain R \<longleftrightarrow> (\<forall>k p. fmlookup R k = Some p \<longrightarrow> plain_ty (ptype p))"
proof -
  have "plain_property p = plain_ty (ptype p)" for p by (cases p) simp
  then show ?thesis
    by (auto simp: plain_def fmlookup_ran_iff)
qed

lemma plain_ty_TObject: "plain_ty (TObject m) = plain m"
  by (simp add: plain_def)

lemma keyof_DeepMapValues:
  assumes "DeepMapValues R V = Some R'"
  shows "keyof R' = keyof R"
proof (rule fset_eqI)
  fix k
  from DeepMapValues_lookup [OF assms, of k]
  show "k |\<in>| keyof R' \<longleftrightarrow> k |\<in>| keyof R"
    by (cases "fmlookup R k"; cases "fmlookup R' k") (simp_all add: keyof_iff)
qed

lemma example_nested_lookup:
  "fmlookup example_nested k =
     (if k = StrKey ''a'' then Some (Prop TString False False)
      else if k = StrKey ''n'' then
        Some (Prop (TObject example_inner) False False)
      else None)"
  by (simp add: example_nested_def)

lemma plain_example_inner: "plain example_inner"
  by (auto simp: plain_iff example_inner_def split: if_splits)

lemma plain_example_nested: "plain example_nested"
proof -
  have "plain_ty (TObject example_inner)"
    by (simp only: plain_ty_TObject plain_example_inner)
  moreover have "plain_ty TString" by simp
  ultimately show ?thesis
    by (auto simp: plain_iff example_nested_lookup simp del: plain_ty.simps split: if_splits)
qed

text \<open>
  Evaluations. Over \<^verbatim>\<open>{ a: string; n: { b: boolean; readonly c?: null } }\<close> the result is
  \<^verbatim>\<open>{ a: number; n: { b: number; readonly c?: number | undefined } }\<close>.
\<close>

lemma DeepMapValues_example_inner:
  "DeepMapValues example_inner TNumber
   = Some (fmap_of_list [(StrKey ''b'', Prop TNumber False False),
                         (StrKey ''c'', Prop (TUnion {|APrim PNumber, APrim PUndefined|}) True True)])"
  by (rule DeepMapValues_eqI) (auto simp: example_inner_def read_type_def OrUndefined_def UnionOf_def)

lemma DeepMapValues_example_nested:
  "DeepMapValues example_nested TNumber
   = Some (fmap_of_list
       [(StrKey ''a'', Prop TNumber False False),
        (StrKey ''n'', Prop (TObject (fmap_of_list
                  [(StrKey ''b'', Prop TNumber False False),
                   (StrKey ''c'', Prop (TUnion {|APrim PNumber, APrim PUndefined|}) True True)])) False False)])"
  by (rule DeepMapValues_eqI)
     (simp add: example_nested_lookup read_type_def DeepMapValues_ty_TObject
        DeepMapValues_example_inner del: DeepMapValues_ty.simps)

text \<open>
  An optional key is read as \<^verbatim>\<open>T | undefined\<close>, which is not assignable to \<^verbatim>\<open>Obj\<close>: the
  record under an optional key is not entered, \<^verbatim>\<open>{ a?: { b: string } }\<close> becomes
  \<^verbatim>\<open>{ a?: number | undefined }\<close>.
\<close>

lemma DeepMapValues_example_optional_nested:
  "DeepMapValues example_optional_nested TNumber
   = Some (fmap_of_list [(StrKey ''a'', Prop (TUnion {|APrim PNumber, APrim PUndefined|}) True False)])"
  by (rule DeepMapValues_eqI)
     (auto simp: example_optional_nested_def read_type_def OrUndefined_def UnionOf_def)

text \<open>A key bound to \<^verbatim>\<open>any\<close> leaves the universe: no finite type is denoted.\<close>

lemma DeepMapValues_example_any: "DeepMapValues example_top TNumber = None"
proof -
  have "fmlookup (fmmap (\<lambda>p. DeepMapValues_property p TNumber) example_top) (StrKey ''v'') = Some None"
    by (simp add: example_top_lookup read_type_required)
  then have "None |\<in>| fmran (fmmap (\<lambda>p. DeepMapValues_property p TNumber) example_top)"
    unfolding fmlookup_ran_iff by (rule exI)
  then show ?thesis
    by (simp add: DeepMapValues_def sequence_fmap_def)
qed

subsection \<open>DeepMapValues on a union of records\<close>

lemma plain_object_atom:
  "plain_atom a \<Longrightarrow> is_object a \<Longrightarrow> \<exists>m. a = AObj m \<and> plain m"
  by (cases a) (simp_all add: plain_def)

lemma plain_ty_member: "plain_ty (TUnion as) \<Longrightarrow> a |\<in>| as \<Longrightarrow> plain_atom a"
  by auto

lemma DeepMapValues_ty_union:
  assumes "DeepMapValues_ty (TUnion as) V = Some t'"
  shows "\<exists>as'. t' = TUnion as'
           \<and> (\<forall>a'. a' |\<in>| as' \<longleftrightarrow> (\<exists>a. a |\<in>| as \<and> DeepMapValues_atom a V = Some a'))
           \<and> (\<forall>a. a |\<in>| as \<longrightarrow> DeepMapValues_atom a V \<noteq> None)"
proof -
  let ?S = "(\<lambda>a. DeepMapValues_atom a V) |`| as"
  from assms have n: "None |\<notin>| ?S" and t': "t' = TUnion (the |`| ?S)"
    by (auto simp: sequence_fset_def split: if_splits)
  have d: "DeepMapValues_atom a V \<noteq> None" if "a |\<in>| as" for a
    using n that by force
  have "a' |\<in>| the |`| ?S \<longleftrightarrow> (\<exists>a. a |\<in>| as \<and> DeepMapValues_atom a V = Some a')" for a'
  proof
    assume "a' |\<in>| the |`| ?S"
    then obtain a where a: "a |\<in>| as" "a' = the (DeepMapValues_atom a V)" by auto
    with d [OF a(1)] show "\<exists>a. a |\<in>| as \<and> DeepMapValues_atom a V = Some a'" by auto
  next
    assume "\<exists>a. a |\<in>| as \<and> DeepMapValues_atom a V = Some a'"
    then obtain a where a: "a |\<in>| as" "DeepMapValues_atom a V = Some a'" by blast
    then have "the (DeepMapValues_atom a V) = a'" by simp
    with a(1) show "a' |\<in>| the |`| ?S" by force
  qed
  with t' d show ?thesis by blast
qed

lemma example_inner_lookup:
  "fmlookup example_inner k =
     (if k = StrKey ''b'' then Some (Prop TBoolean False False)
      else if k = StrKey ''c'' then Some (Prop TNull True True) else None)"
  by (simp add: example_inner_def)

lemma example_choice_lookup:
  "fmlookup example_choice k =
     (if k = StrKey ''u'' then Some (Prop (TUnion {|AObj example_x, AObj example_y|}) False False)
      else None)"
  by (simp add: example_choice_def)

lemma plain_example_x: "plain example_x"
  by (auto simp: plain_iff example_x_def split: if_splits)

lemma plain_example_y: "plain example_y"
  by (auto simp: plain_iff example_y_def split: if_splits)

lemma plain_example_choice: "plain example_choice"
proof -
  have "plain_ty (TUnion {|AObj example_x, AObj example_y|})"
    using plain_example_x plain_example_y by (simp add: plain_def)
  then show ?thesis
    by (auto simp: plain_iff example_choice_lookup simp del: plain_ty.simps split: if_splits)
qed

lemma DeepMapValues_example_x:
  "DeepMapValues example_x TNumber = Some (fmap_of_list [(StrKey ''x'', Prop TNumber False False)])"
  by (rule DeepMapValues_eqI) (auto simp: example_x_def read_type_def)

lemma DeepMapValues_example_y:
  "DeepMapValues example_y TNumber = Some (fmap_of_list [(StrKey ''y'', Prop TNumber False False)])"
  by (rule DeepMapValues_eqI) (auto simp: example_y_def read_type_def)

lemma example_x_neq_y: "example_x \<noteq> example_y"
proof
  assume "example_x = example_y"
  then have "fmlookup example_x (StrKey ''x'') = fmlookup example_y (StrKey ''x'')" by simp
  then show False by (simp add: example_x_def example_y_def)
qed

section \<open>Merge\<close>




section \<open>RemoveKeys\<close>

text \<open>
  C8. For every record type \<open>R\<close> and all disjoint sets of keys \<open>K1\<close> and \<open>K2\<close> of \<open>R\<close>,
  removing \<open>K1\<close> and then \<open>K2\<close> is accepted by the checker and denotes the same record
  as removing \<open>K1 \<union> K2\<close> at once.
\<close>

theorem RemoveKeys_twice:
  assumes "K1 |\<subseteq>| keyof R" and "K2 |\<subseteq>| keyof R" and "K1 |\<inter>| K2 = {||}"
  shows "\<exists>R1 R2. RemoveKeys R K1 = Some R1 \<and> RemoveKeys R1 K2 = Some R2
           \<and> RemoveKeys R (K1 |\<union>| K2) = Some R2"
proof -
  have 1: "RemoveKeys R K1 = Some (fmdrop_fset K1 R)"
    using assms(1) by (rule RemoveKeys_eq)
  have "K2 |\<subseteq>| keyof (fmdrop_fset K1 R)"
  proof (rule fsubsetI)
    fix x assume x: "x |\<in>| K2"
    with assms(2) have "x |\<in>| keyof R" by (rule fsubsetD)
    moreover from x assms(3) have "x |\<notin>| K1" by auto
    ultimately show "x |\<in>| keyof (fmdrop_fset K1 R)" by (simp add: keyof_iff)
  qed
  then have 2: "RemoveKeys (fmdrop_fset K1 R) K2 = Some (fmdrop_fset K2 (fmdrop_fset K1 R))"
    by (rule RemoveKeys_eq)
  have "K1 |\<union>| K2 |\<subseteq>| keyof R"
    using assms(1,2) by auto
  then have 3: "RemoveKeys R (K1 |\<union>| K2) = Some (fmdrop_fset (K1 |\<union>| K2) R)"
    by (rule RemoveKeys_eq)
  have "fmdrop_fset K2 (fmdrop_fset K1 R) = fmdrop_fset (K1 |\<union>| K2) R"
    by (rule fmap_ext) auto
  with 1 2 3 show ?thesis by simp
qed

theorem RemoveKeys_twice_witness:
  "{|StrKey ''a''|} |\<subseteq>| keyof example_ab \<and> {|StrKey ''b''|} |\<subseteq>| keyof example_ab
   \<and> {|StrKey ''a''|} |\<inter>| {|StrKey ''b''|} = {||}
   \<and> (\<exists>R1 R2. RemoveKeys example_ab {|StrKey ''a''|} = Some R1 \<and> RemoveKeys R1 {|StrKey ''b''|} = Some R2
         \<and> RemoveKeys example_ab ({|StrKey ''a''|} |\<union>| {|StrKey ''b''|}) = Some R2)"
proof -
  have h: "{|StrKey ''a''|} |\<subseteq>| keyof example_ab" "{|StrKey ''b''|} |\<subseteq>| keyof example_ab"
    "{|StrKey ''a''|} |\<inter>| {|StrKey ''b''|} = ({||} :: key fset)"
    by (simp_all add: keyof_example_ab)
  from h RemoveKeys_twice [OF h] show ?thesis by blast
qed

section \<open>RenameKey\<close>

text \<open>
  C3, as amended. For every record type \<open>R\<close> and every key \<open>K\<close> of \<open>R\<close>, with property \<open>p\<close>,
  renaming \<open>K\<close> to itself denotes \<open>R\<close> exactly when \<open>K\<close> is a required and mutable binding
  of \<open>R\<close>. (The claim states it for every key, modifiers included; the counterexample
  below renames an optional readonly key to itself and obtains a different record.)
\<close>

theorem RenameKey_same_key:
  assumes "record_type R" and "fmlookup R K = Some p"
  shows "RenameKey R {|K|} {|K|} = Some R \<longleftrightarrow> \<not> optional p \<and> \<not> readonly p"
proof -
  let ?R' = "fmupd K (Prop (read_type p) False False) (fmdrop K R)"
  from assms have "\<not> twin_in (keyof R |-| {|K|}) K"
    by (intro record_type_apart) (simp_all add: keyof_iff)
  with assms(2) have eq: "RenameKey R {|K|} {|K|} = Some ?R'"
    by (rule RenameKey_eq)
  have "?R' = R \<longleftrightarrow> Prop (read_type p) False False = p"
  proof
    assume "?R' = R"
    then have "fmlookup ?R' K = fmlookup R K" by simp
    with assms(2) show "Prop (read_type p) False False = p" by simp
  next
    assume "Prop (read_type p) False False = p"
    with assms(2) show "?R' = R"
      by (intro fmap_ext) auto
  qed
  also have "\<dots> \<longleftrightarrow> \<not> optional p \<and> \<not> readonly p"
    by (cases p) (auto simp: read_type_def)
  finally show ?thesis using eq by simp
qed

theorem RenameKey_same_key_witness:
  "record_type example_ab \<and> RenameKey example_ab {|StrKey ''b''|} {|StrKey ''b''|} = Some example_ab"
  using RenameKey_same_key [of example_ab "StrKey ''b''" "Prop TNumber False False"]
  by (simp add: example_ab_lookup record_type_example_ab)

theorem RenameKey_same_key_counterexample:
  "record_type example_ab \<and> StrKey ''a'' |\<in>| keyof example_ab
   \<and> RenameKey example_ab {|StrKey ''a''|} {|StrKey ''a''|} \<noteq> Some example_ab"
proof -
  have "\<not> twin_in (keyof example_ab |-| {|StrKey ''a''|}) (StrKey ''a'')"
    by (simp add: twin_in_def keyof_example_ab)
  then have "RenameKey example_ab {|StrKey ''a''|} {|StrKey ''a''|} =
        Some (fmupd (StrKey ''a'') (Prop (read_type (Prop TString True True)) False False)
               (fmdrop (StrKey ''a'') example_ab))"
    by (intro RenameKey_eq) (simp_all add: example_ab_lookup)
  moreover have "fmlookup (fmupd (StrKey ''a'') (Prop (read_type (Prop TString True True)) False False)
        (fmdrop (StrKey ''a'') example_ab)) (StrKey ''a'') \<noteq> fmlookup example_ab (StrKey ''a'')"
    by (simp add: example_ab_lookup)
  ultimately have "RenameKey example_ab {|StrKey ''a''|} {|StrKey ''a''|} \<noteq> Some example_ab"
    by (metis option.inject)
  then show ?thesis
    by (simp add: keyof_example_ab record_type_example_ab)
qed




section \<open>ReplaceValues\<close>

text \<open>
  C4. For every record type \<open>R\<close>, every set \<open>Keys\<close> of keys of \<open>R\<close> and every value type
  \<open>V\<close>, \<open>ReplaceValues\<close> is accepted and denotes a record with the keys of \<open>R\<close> in which
  every key of \<open>Keys\<close> is bound to \<open>V\<close> and every other key has exactly the binding it has
  in \<open>R\<close>.
\<close>

theorem ReplaceValues_frame:
  assumes "record_type R" and "Keys |\<subseteq>| keyof R"
  shows "\<exists>R'. ReplaceValues R Keys V = Some R'
           \<and> keyof R' = keyof R
           \<and> (\<forall>k. k |\<in>| Keys \<longrightarrow> (\<exists>p. fmlookup R' k = Some p \<and> ptype p = V))
           \<and> (\<forall>k. k |\<notin>| Keys \<longrightarrow> fmlookup R' k = fmlookup R k)"
proof -
  from ReplaceValues_lookup [OF assms, of V] obtain R' where
    R': "ReplaceValues R Keys V = Some R'"
    and l: "\<And>k. fmlookup R' k = (if k |\<in>| Keys then Some (Prop V False False) else fmlookup R k)"
    by blast
  have "keyof R' = keyof R"
  proof (rule fset_eqI)
    fix k show "k |\<in>| keyof R' \<longleftrightarrow> k |\<in>| keyof R"
      using assms(2) by (auto simp: keyof_iff l dest: fsubsetD)
  qed
  with R' l show ?thesis by simp
qed

theorem ReplaceValues_frame_witness:
  "record_type example_ab \<and> {|StrKey ''a''|} |\<subseteq>| keyof example_ab
   \<and> (\<exists>R'. ReplaceValues example_ab {|StrKey ''a''|} TBoolean = Some R'
      \<and> fmlookup R' (StrKey ''a'') = Some (Prop TBoolean False False)
      \<and> fmlookup R' (StrKey ''b'') = Some (Prop TNumber False False))"
proof -
  have h: "record_type example_ab" "{|StrKey ''a''|} |\<subseteq>| keyof example_ab"
    by (simp_all add: keyof_example_ab record_type_example_ab)
  from ReplaceValues_frame [OF h, of TBoolean] ReplaceValues_lookup [OF h, of TBoolean] h
  show ?thesis by (auto simp: example_ab_lookup)
qed

text \<open>
  C10. The bindings that \<open>ReplaceValues\<close> creates (the keys of \<open>Keys\<close>) and the binding
  that \<open>RenameKey\<close> creates (\<open>NewKey\<close>) are required and mutable in the result, whatever
  the modifiers of the source key in \<open>R\<close>.
\<close>

theorem fresh_bindings_required_mutable:
  "(Keys |\<subseteq>| keyof R \<longrightarrow>
      (\<exists>R'. ReplaceValues R Keys V = Some R'
         \<and> (\<forall>k. k |\<in>| Keys \<longrightarrow> (\<exists>p. fmlookup R' k = Some p \<and> \<not> optional p \<and> \<not> readonly p))))
   \<and> (OldKey |\<in>| keyof R \<longrightarrow>
      (\<exists>R'. RenameKey R {|OldKey|} {|NewKey|} = Some R'
         \<and> (\<exists>p. fmlookup R' NewKey = Some p \<and> \<not> optional p \<and> \<not> readonly p)))"
proof (intro conjI impI)
  assume "Keys |\<subseteq>| keyof R"
  then show "\<exists>R'. ReplaceValues R Keys V = Some R'
         \<and> (\<forall>k. k |\<in>| Keys \<longrightarrow> (\<exists>p. fmlookup R' k = Some p \<and> \<not> optional p \<and> \<not> readonly p))"
    by (rule ReplaceValues_new_bindings)
next
  assume "OldKey |\<in>| keyof R"
  from RenameKey_new_binding [OF this, of NewKey]
  show "\<exists>R'. RenameKey R {|OldKey|} {|NewKey|} = Some R'
         \<and> (\<exists>p. fmlookup R' NewKey = Some p \<and> \<not> optional p \<and> \<not> readonly p)"
    by blast
qed

theorem fresh_bindings_required_mutable_witness:
  "(\<exists>R'. ReplaceValues example_ab {|StrKey ''a''|} TBoolean = Some R'
       \<and> (\<exists>p. fmlookup R' (StrKey ''a'') = Some p \<and> \<not> optional p \<and> \<not> readonly p))
   \<and> (\<exists>R'. RenameKey example_ab {|StrKey ''a''|} {|StrKey ''c''|} = Some R'
       \<and> (\<exists>p. fmlookup R' (StrKey ''c'') = Some p \<and> \<not> optional p \<and> \<not> readonly p))
   \<and> fmlookup example_ab (StrKey ''a'') = Some (Prop TString True True)
   \<and> (\<exists>R'. RenameKey example_num1_b {|StrKey ''b''|} {|StrKey ''1''|} = Some R'
       \<and> (\<exists>p. fmlookup R' (StrKey ''1'') = Some p \<and> \<not> optional p \<and> \<not> readonly p))"
  using fresh_bindings_required_mutable
      [of "{|StrKey ''a''|}" example_ab TBoolean "StrKey ''a''" "StrKey ''c''"]
    fresh_bindings_required_mutable
      [of "{||}" example_num1_b TBoolean "StrKey ''b''" "StrKey ''1''"]
  by (simp add: keyof_example_ab example_ab_lookup keyof_example_num1_b)

section \<open>MapValues and ValueOf\<close>

text \<open>
  C7. For every record type \<open>R\<close> with at least one key and every value type \<open>X\<close>,
  \<open>ValueOf (MapValues R X)\<close> is exactly \<open>X\<close>.
\<close>

theorem ValueOf_MapValues:
  assumes "keyof R \<noteq> {||}"
  shows "ValueOf (MapValues R X) = X"
proof -
  from assms obtain k where k: "k |\<in>| keyof R" by auto
  have "fmimage (MapValues R X) (keyof R) = {|Prop X False False|}"
    using k by (intro fset_eqI) (auto simp: fmlookup_image_iff fmlookup_MapValues)
  then show ?thesis
    by (simp add: ValueOf_def keyof_MapValues IndexedAccess_def read_type_def UnionOf_single)
qed

theorem ValueOf_MapValues_witness:
  "keyof example_ab \<noteq> {||} \<and> ValueOf (MapValues example_ab TBoolean) = TBoolean"
proof -
  have ne: "keyof example_ab \<noteq> {||}" by (simp add: keyof_example_ab)
  from ne ValueOf_MapValues [OF ne, of TBoolean] show ?thesis by simp
qed

text \<open>
  C9. For every record type \<open>R\<close> and value type \<open>X\<close>, \<open>MapValues R X\<close> has the keys of \<open>R\<close>
  and each of its bindings is required and mutable, whatever modifiers the key carries in
  \<open>R\<close>.
\<close>

theorem MapValues_required_mutable:
  "keyof (MapValues R X) = keyof R
   \<and> (\<forall>k p. fmlookup (MapValues R X) k = Some p \<longrightarrow> \<not> optional p \<and> \<not> readonly p)"
  by (simp add: keyof_MapValues fmlookup_MapValues)

theorem MapValues_required_mutable_witness:
  "fmlookup example_ab (StrKey ''a'') = Some (Prop TString True True)
   \<and> fmlookup (MapValues example_ab TBoolean) (StrKey ''a'') = Some (Prop TBoolean False False)"
  using MapValues_required_mutable [of example_ab TBoolean]
  by (simp add: example_ab_lookup fmlookup_MapValues keyof_example_ab)

section \<open>OptionalLikelyUndefProps\<close>

text \<open>
  C2. For every record type \<open>R\<close>, \<open>OptionalLikelyUndefProps R\<close> has the keys of \<open>R\<close>; a key
  is optional in it exactly when the type read at the key in \<open>R\<close> admits \<^verbatim>\<open>undefined\<close>,
  which \<^verbatim>\<open>unknown\<close> and \<^verbatim>\<open>any\<close> do; the type read at each key and its \<^verbatim>\<open>readonly\<close> modifier
  are those of \<open>R\<close>. In particular \<^verbatim>\<open>{ a: string, b: string | undefined }\<close> becomes
  \<^verbatim>\<open>{ a: string, b?: string | undefined }\<close>.
\<close>

theorem OptionalLikelyUndefProps_spec:
  "(record_type R \<longrightarrow>
      keyof (OptionalLikelyUndefProps R) = keyof R
      \<and> (\<forall>k p. fmlookup R k = Some p \<longrightarrow>
           (\<exists>p'. fmlookup (OptionalLikelyUndefProps R) k = Some p'
              \<and> (optional p' \<longleftrightarrow> CanBeUndef (read_type p))
              \<and> read_type p' = read_type p
              \<and> readonly p' = readonly p
              \<and> (\<not> optional p \<longrightarrow> ptype p' = ptype p))))
   \<and> CanBeUndef TUnknown \<and> CanBeUndef TAny
   \<and> OptionalLikelyUndefProps example_undef =
       fmap_of_list [(StrKey ''a'', Prop TString False False),
                     (StrKey ''b'', Prop (TUnion {|APrim PString, APrim PUndefined|}) True False)]"
proof (intro conjI allI impI)
  assume r: "record_type R"
  show "keyof (OptionalLikelyUndefProps R) = keyof R"
    by (rule fset_eqI)
       (simp add: keyof_iff fmlookup_OptionalLikelyUndefProps [OF r] split: option.splits)
next
  fix k p assume r: "record_type R" and p: "fmlookup R k = Some p"
  show "\<exists>p'. fmlookup (OptionalLikelyUndefProps R) k = Some p'
           \<and> (optional p' \<longleftrightarrow> CanBeUndef (read_type p))
           \<and> read_type p' = read_type p
           \<and> readonly p' = readonly p
           \<and> (\<not> optional p \<longrightarrow> ptype p' = ptype p)"
  proof (cases "CanBeUndef (read_type p)")
    case True
    then show ?thesis
      by (simp add: fmlookup_OptionalLikelyUndefProps [OF r] p read_type_def OrUndefined_CanBeUndef)
  next
    case False
    then have "\<not> optional p"
      by (auto simp: read_type_def CanBeUndef_OrUndefined)
    with False show ?thesis
      by (simp add: fmlookup_OptionalLikelyUndefProps [OF r] p read_type_def)
  qed
next
  show "OptionalLikelyUndefProps example_undef =
       fmap_of_list [(StrKey ''a'', Prop TString False False),
                     (StrKey ''b'', Prop (TUnion {|APrim PString, APrim PUndefined|}) True False)]"
    by (rule fmap_ext)
       (simp add: fmlookup_OptionalLikelyUndefProps [OF record_type_example_undef]
          example_undef_lookup read_type_def)
qed simp_all

theorem OptionalLikelyUndefProps_spec_witness:
  "record_type example_top
   \<and> (\<exists>p'. fmlookup (OptionalLikelyUndefProps example_top) (StrKey ''u'') = Some p'
        \<and> optional p' \<and> read_type p' = TUnknown)
   \<and> (\<exists>p'. fmlookup (OptionalLikelyUndefProps example_top) (StrKey ''v'') = Some p'
        \<and> optional p' \<and> read_type p' = TAny)
   \<and> (\<exists>p'. fmlookup (OptionalLikelyUndefProps example_top) (StrKey ''w'') = Some p'
        \<and> \<not> optional p' \<and> ptype p' = TNumber)"
proof -
  from OptionalLikelyUndefProps_spec [of example_top] record_type_example_top have
    l: "\<And>k p. fmlookup example_top k = Some p \<Longrightarrow>
        (\<exists>p'. fmlookup (OptionalLikelyUndefProps example_top) k = Some p'
           \<and> (optional p' \<longleftrightarrow> CanBeUndef (read_type p))
           \<and> read_type p' = read_type p
           \<and> readonly p' = readonly p
           \<and> (\<not> optional p \<longrightarrow> ptype p' = ptype p))"
    by blast
  from l [of "StrKey ''u''" "Prop TUnknown False False"]
    l [of "StrKey ''v''" "Prop TAny False False"]
    l [of "StrKey ''w''" "Prop TNumber False False"]
  show ?thesis
    by (simp add: example_top_lookup read_type_required record_type_example_top) blast
qed

section \<open>DeepMapValues\<close>

text \<open>
  C5, as amended. For every record type \<open>R\<close> in which neither \<^verbatim>\<open>any\<close> nor an unreduced
  intersection occurs and every value type \<open>V\<close>, \<open>DeepMapValues R V\<close> denotes a record with
  the keys of \<open>R\<close>, each with the modifiers it has in \<open>R\<close>. A value that is not assignable
  to \<^verbatim>\<open>Obj\<close> is replaced with \<open>V\<close> (stored as \<^verbatim>\<open>V | undefined\<close> at an optional key). At a
  required key whose value is assignable to \<^verbatim>\<open>Obj\<close>: if the value is a record type \<open>m\<close>,
  the new value is the record \<open>DeepMapValues m V\<close> (\<open>m\<close> is again such a record, so the same
  holds one level down, and so on: the keys are kept at every level and only leaf values
  change); if it is a union of record types, the new value is the union of the records
  \<open>DeepMapValues m V\<close> for the members \<open>m\<close> of the union; if it is \<^verbatim>\<open>never\<close>, it stays
  \<^verbatim>\<open>never\<close>. (The claim replaces every value that is not a record type with \<open>V\<close>; the
  counterexample below is a record with a \<^verbatim>\<open>never\<close> value, which is kept.)
\<close>

theorem DeepMapValues_spec:
  assumes "plain R"
  shows "\<exists>R'. DeepMapValues R V = Some R' \<and> keyof R' = keyof R \<and>
     (\<forall>k p. fmlookup R k = Some p \<longrightarrow>
        (\<exists>p'. fmlookup R' k = Some p' \<and> optional p' = optional p \<and> readonly p' = readonly p \<and>
           (\<not> extends_Obj (ptype p) \<longrightarrow> ptype p' = (if optional p then OrUndefined V else V)) \<and>
           (\<not> optional p \<longrightarrow>
              (\<forall>m. ptype p = TObject m \<longrightarrow>
                   plain m \<and> (\<exists>m'. DeepMapValues m V = Some m' \<and> ptype p' = TObject m')) \<and>
              (\<forall>as. ptype p = TUnion as \<and> extends_Obj (TUnion as) \<longrightarrow>
                   (\<exists>as'. ptype p' = TUnion as'
                      \<and> (\<forall>a'. a' |\<in>| as' \<longleftrightarrow>
                            (\<exists>m m'. AObj m |\<in>| as \<and> DeepMapValues m V = Some m' \<and> a' = AObj m'))
                      \<and> (\<forall>a. a |\<in>| as \<longrightarrow>
                            (\<exists>m m'. a = AObj m \<and> plain m \<and> DeepMapValues m V = Some m')))) \<and>
              (ptype p = TNever \<longrightarrow> ptype p' = TNever))))"
proof -
  from DeepMapValues_defined [OF assms] obtain R' where R': "DeepMapValues R V = Some R'"
    by blast
  have "\<exists>p'. fmlookup R' k = Some p' \<and> optional p' = optional p \<and> readonly p' = readonly p \<and>
           (\<not> extends_Obj (ptype p) \<longrightarrow> ptype p' = (if optional p then OrUndefined V else V)) \<and>
           (\<not> optional p \<longrightarrow>
              (\<forall>m. ptype p = TObject m \<longrightarrow>
                   plain m \<and> (\<exists>m'. DeepMapValues m V = Some m' \<and> ptype p' = TObject m')) \<and>
              (\<forall>as. ptype p = TUnion as \<and> extends_Obj (TUnion as) \<longrightarrow>
                   (\<exists>as'. ptype p' = TUnion as'
                      \<and> (\<forall>a'. a' |\<in>| as' \<longleftrightarrow>
                            (\<exists>m m'. AObj m |\<in>| as \<and> DeepMapValues m V = Some m' \<and> a' = AObj m'))
                      \<and> (\<forall>a. a |\<in>| as \<longrightarrow>
                            (\<exists>m m'. a = AObj m \<and> plain m \<and> DeepMapValues m V = Some m')))) \<and>
              (ptype p = TNever \<longrightarrow> ptype p' = TNever))"
    if p: "fmlookup R k = Some p" for k p
  proof -
    from DeepMapValues_lookup [OF R', of k] p obtain p' where
      p': "fmlookup R' k = Some p'" and t: "DeepMapValues_property p V = Some p'"
      by (cases "fmlookup R' k") auto
    from assms p have af: "plain_ty (ptype p)"
      by (simp add: plain_iff)
    then have na: "ptype p \<noteq> TAny" by auto
    from t have mods: "optional p' = optional p" "readonly p' = readonly p"
      by (cases p; auto)+
    have leaf: "ptype p' = (if optional p then OrUndefined V else V)"
      if ne: "\<not> extends_Obj (ptype p)"
    proof -
      have "read_type p \<noteq> TAny" using na by (simp add: read_type_TAny)
      moreover have "\<not> extends_Obj (read_type p)"
        using ne na by (auto simp: read_type_def dest: extends_Obj_OrUndefined)
      ultimately show ?thesis
        using t by (cases p) auto
    qed
    have req: "(\<forall>m. ptype p = TObject m \<longrightarrow>
                   plain m \<and> (\<exists>m'. DeepMapValues m V = Some m' \<and> ptype p' = TObject m')) \<and>
              (\<forall>as. ptype p = TUnion as \<and> extends_Obj (TUnion as) \<longrightarrow>
                   (\<exists>as'. ptype p' = TUnion as'
                      \<and> (\<forall>a'. a' |\<in>| as' \<longleftrightarrow>
                            (\<exists>m m'. AObj m |\<in>| as \<and> DeepMapValues m V = Some m' \<and> a' = AObj m'))
                      \<and> (\<forall>a. a |\<in>| as \<longrightarrow>
                            (\<exists>m m'. a = AObj m \<and> plain m \<and> DeepMapValues m V = Some m')))) \<and>
              (ptype p = TNever \<longrightarrow> ptype p' = TNever)"
      if "\<not> optional p"
    proof -
      from that have rt: "read_type p = ptype p" by (simp add: read_type_def)
      have 2: "DeepMapValues_ty (ptype p) V = Some (ptype p')" if "extends_Obj (ptype p)"
        using t that na \<open>\<not> optional p\<close> rt by (cases p) auto
      have 3: "ptype p' = TNever" if "ptype p = TNever"
        using 2 that by (auto simp: sequence_fset_def)
      have 1: "plain m \<and> (\<exists>m'. DeepMapValues m V = Some m' \<and> ptype p' = TObject m')"
        if "ptype p = TObject m" for m
      proof -
        from af that have "plain m" by (simp only: plain_ty_TObject)
        moreover from 2 that have "map_option TObject (DeepMapValues m V) = Some (ptype p')"
          by (simp add: DeepMapValues_ty_TObject [symmetric])
        ultimately show ?thesis by auto
      qed
      have 4: "\<exists>as'. ptype p' = TUnion as'
                      \<and> (\<forall>a'. a' |\<in>| as' \<longleftrightarrow>
                            (\<exists>m m'. AObj m |\<in>| as \<and> DeepMapValues m V = Some m' \<and> a' = AObj m'))
                      \<and> (\<forall>a. a |\<in>| as \<longrightarrow>
                            (\<exists>m m'. a = AObj m \<and> plain m \<and> DeepMapValues m V = Some m'))"
        if u: "ptype p = TUnion as" and e: "extends_Obj (TUnion as)" for as
      proof -
        from 2 u e have "DeepMapValues_ty (TUnion as) V = Some (ptype p')" by simp
        from DeepMapValues_ty_union [OF this] obtain as' where
          as': "ptype p' = TUnion as'"
          and mem: "\<And>a'. a' |\<in>| as' \<longleftrightarrow> (\<exists>a. a |\<in>| as \<and> DeepMapValues_atom a V = Some a')"
          and def: "\<And>a. a |\<in>| as \<Longrightarrow> DeepMapValues_atom a V \<noteq> None"
          by blast
        have obj: "\<exists>m m'. a = AObj m \<and> plain m \<and> DeepMapValues m V = Some m'"
          if a: "a |\<in>| as" for a
        proof -
          from af u a have "plain_atom a" by (simp only: plain_ty_member)
          moreover from e a have "is_object a" by auto
          ultimately obtain m where m: "a = AObj m" "plain m"
            by (auto dest: plain_object_atom)
          with def [OF a] show ?thesis
            by (auto simp: DeepMapValues_def)
        qed
        have "a' |\<in>| as' \<longleftrightarrow>
            (\<exists>m m'. AObj m |\<in>| as \<and> DeepMapValues m V = Some m' \<and> a' = AObj m')" for a'
        proof
          assume "a' |\<in>| as'"
          with mem obtain a where a: "a |\<in>| as" "DeepMapValues_atom a V = Some a'" by blast
          from obj [OF a(1)] obtain m m' where "a = AObj m" "DeepMapValues m V = Some m'"
            by blast
          with a show "\<exists>m m'. AObj m |\<in>| as \<and> DeepMapValues m V = Some m' \<and> a' = AObj m'"
            by (auto simp: DeepMapValues_def)
        next
          assume "\<exists>m m'. AObj m |\<in>| as \<and> DeepMapValues m V = Some m' \<and> a' = AObj m'"
          then obtain m m' where "AObj m |\<in>| as" "DeepMapValues m V = Some m'" "a' = AObj m'"
            by blast
          then have "AObj m |\<in>| as \<and> DeepMapValues_atom (AObj m) V = Some a'"
            by (simp add: DeepMapValues_def)
          with mem show "a' |\<in>| as'" by blast
        qed
        with as' obj show ?thesis by blast
      qed
      from 1 3 4 show ?thesis by blast
    qed
    from p' mods leaf req show ?thesis by blast
  qed
  with R' keyof_DeepMapValues [OF R'] show ?thesis by blast
qed

theorem DeepMapValues_spec_witness:
  "plain example_nested \<and> plain example_inner \<and> plain example_choice
   \<and> (\<exists>R'. DeepMapValues example_nested TNumber = Some R' \<and> keyof R' = keyof example_nested
        \<and> (\<exists>p'. fmlookup R' (StrKey ''a'') = Some p' \<and> ptype p' = TNumber)
        \<and> (\<exists>p' m'. fmlookup R' (StrKey ''n'') = Some p' \<and> ptype p' = TObject m'
              \<and> DeepMapValues example_inner TNumber = Some m'))
   \<and> (\<exists>R'. DeepMapValues example_inner TNumber = Some R'
        \<and> fmlookup R' (StrKey ''c'')
            = Some (Prop (TUnion {|APrim PNumber, APrim PUndefined|}) True True))
   \<and> (\<exists>R'. DeepMapValues example_choice TNumber = Some R'
        \<and> (\<exists>p'. fmlookup R' (StrKey ''u'') = Some p'
              \<and> ptype p' = TUnion {|AObj (fmap_of_list [(StrKey ''x'', Prop TNumber False False)]),
                                     AObj (fmap_of_list [(StrKey ''y'', Prop TNumber False False)])|}))"
proof -
  let ?post = "\<lambda>R R'. \<forall>k p. fmlookup R k = Some p \<longrightarrow>
        (\<exists>p'. fmlookup R' k = Some p' \<and> optional p' = optional p \<and> readonly p' = readonly p \<and>
           (\<not> extends_Obj (ptype p) \<longrightarrow> ptype p' = (if optional p then OrUndefined TNumber else TNumber)) \<and>
           (\<not> optional p \<longrightarrow>
              (\<forall>m. ptype p = TObject m \<longrightarrow>
                   plain m \<and> (\<exists>m'. DeepMapValues m TNumber = Some m' \<and> ptype p' = TObject m')) \<and>
              (\<forall>as. ptype p = TUnion as \<and> extends_Obj (TUnion as) \<longrightarrow>
                   (\<exists>as'. ptype p' = TUnion as'
                      \<and> (\<forall>a'. a' |\<in>| as' \<longleftrightarrow>
                            (\<exists>m m'. AObj m |\<in>| as \<and> DeepMapValues m TNumber = Some m' \<and> a' = AObj m'))
                      \<and> (\<forall>a. a |\<in>| as \<longrightarrow>
                            (\<exists>m m'. a = AObj m \<and> plain m \<and> DeepMapValues m TNumber = Some m')))) \<and>
              (ptype p = TNever \<longrightarrow> ptype p' = TNever)))"
  from DeepMapValues_spec [OF plain_example_nested, of TNumber] obtain R' where
    R': "DeepMapValues example_nested TNumber = Some R'" "keyof R' = keyof example_nested"
    and l: "?post example_nested R'"
    by (elim exE conjE) (rule that; assumption)
  from l [rule_format, of "StrKey ''a''" "Prop TString False False"]
  have a: "\<exists>p'. fmlookup R' (StrKey ''a'') = Some p' \<and> ptype p' = TNumber"
    by (auto simp: example_nested_lookup)
  from l [rule_format, of "StrKey ''n''" "Prop (TObject example_inner) False False"]
  have n: "\<exists>p' m'. fmlookup R' (StrKey ''n'') = Some p' \<and> ptype p' = TObject m' \<and>
         DeepMapValues example_inner TNumber = Some m'"
    by (auto simp: example_nested_lookup)
  have nested: "\<exists>R'. DeepMapValues example_nested TNumber = Some R' \<and> keyof R' = keyof example_nested
        \<and> (\<exists>p'. fmlookup R' (StrKey ''a'') = Some p' \<and> ptype p' = TNumber)
        \<and> (\<exists>p' m'. fmlookup R' (StrKey ''n'') = Some p' \<and> ptype p' = TObject m'
              \<and> DeepMapValues example_inner TNumber = Some m')"
    using R' a n by blast
  from DeepMapValues_spec [OF plain_example_inner, of TNumber] obtain I' where
    I': "DeepMapValues example_inner TNumber = Some I'" "keyof I' = keyof example_inner"
    and li: "?post example_inner I'"
    by (elim exE conjE) (rule that; assumption)
  from li [rule_format, of "StrKey ''c''" "Prop TNull True True"]
  obtain pc where pc: "fmlookup I' (StrKey ''c'') = Some pc" "optional pc" "readonly pc"
    "ptype pc = OrUndefined TNumber"
    by (auto simp: example_inner_lookup)
  then have "pc = Prop (TUnion {|APrim PNumber, APrim PUndefined|}) True True"
    by (cases pc) (auto simp: OrUndefined_def UnionOf_def)
  with I'(1) pc(1) have inner: "\<exists>R'. DeepMapValues example_inner TNumber = Some R'
        \<and> fmlookup R' (StrKey ''c'')
            = Some (Prop (TUnion {|APrim PNumber, APrim PUndefined|}) True True)"
    by simp
  from DeepMapValues_spec [OF plain_example_choice, of TNumber] obtain C' where
    C': "DeepMapValues example_choice TNumber = Some C'" "keyof C' = keyof example_choice"
    and lc: "?post example_choice C'"
    by (elim exE conjE) (rule that; assumption)
  from lc [rule_format, of "StrKey ''u''" "Prop (TUnion {|AObj example_x, AObj example_y|}) False False"]
  obtain pu as' where pu: "fmlookup C' (StrKey ''u'') = Some pu" "ptype pu = TUnion as'"
    and mem: "\<And>a'. a' |\<in>| as' \<longleftrightarrow>
       (\<exists>m m'. AObj m |\<in>| {|AObj example_x, AObj example_y|}
           \<and> DeepMapValues m TNumber = Some m' \<and> a' = AObj m')"
    by (auto simp: example_choice_lookup)
  have "as' = {|AObj (fmap_of_list [(StrKey ''x'', Prop TNumber False False)]),
               AObj (fmap_of_list [(StrKey ''y'', Prop TNumber False False)])|}"
    by (rule fset_eqI)
       (auto simp: mem DeepMapValues_example_x DeepMapValues_example_y)
  with C'(1) pu have choice: "\<exists>R'. DeepMapValues example_choice TNumber = Some R'
        \<and> (\<exists>p'. fmlookup R' (StrKey ''u'') = Some p'
              \<and> ptype p' = TUnion {|AObj (fmap_of_list [(StrKey ''x'', Prop TNumber False False)]),
                                     AObj (fmap_of_list [(StrKey ''y'', Prop TNumber False False)])|})"
    by simp
  from plain_example_nested plain_example_inner plain_example_choice nested inner choice
  show ?thesis by blast
qed

theorem DeepMapValues_counterexample:
  "fmlookup example_never (StrKey ''a'') = Some (Prop TNever False False)
   \<and> ffilter is_object (members TNever) = {||}
   \<and> TNever \<noteq> TNumber
   \<and> DeepMapValues example_never TNumber = Some example_never"
proof -
  have "DeepMapValues example_never TNumber = Some example_never"
    by (rule DeepMapValues_eqI)
       (auto simp: example_never_def read_type_def sequence_fset_def)
  then show ?thesis
    by (auto simp: example_never_def)
qed

end
